theory Spec2Isabelle
  imports Main
begin

section \<open>The subrating tier controller of src/subrating.c (central role)\<close>

subsection \<open>Parameter sets and the build-time configuration\<close>

text \<open>
  \<^verbatim>\<open>struct bt_conn_le_subrate_param\<close>: the five fields the three static tables fill in.
\<close>

record bt_conn_le_subrate_param =
  subrate_min :: nat
  subrate_max :: nat
  max_latency :: nat
  continuation_number :: nat
  supervision_timeout :: nat

text \<open>
  The Kconfig constants \<^verbatim>\<open>CONFIG_ZMK_BLE_SUBRATE_*\<close> behind the \<^verbatim>\<open>#define\<close>s of lines
  16-22, 42-45 and 65-68. Their values are not part of the sources, so they are a
  parameter of every operation.
\<close>

record config =
  SUBRATE_TIMEOUT :: nat
  SUBRATE_DORMANT_DELAY_MS :: nat
  SUBRATE_ACTIVE_MIN :: nat
  SUBRATE_ACTIVE_MAX :: nat
  SUBRATE_ACTIVE_CN :: nat
  SUBRATE_IDLE_MIN :: nat
  SUBRATE_IDLE_MAX :: nat
  SUBRATE_IDLE_CN :: nat
  SUBRATE_IDLE_MAX_LATENCY :: nat
  SUBRATE_DORMANT_MIN :: nat
  SUBRATE_DORMANT_MAX :: nat
  SUBRATE_DORMANT_CN :: nat
  SUBRATE_DORMANT_MAX_LATENCY :: nat

definition active_params :: "config \<Rightarrow> bt_conn_le_subrate_param" where
  "active_params cfg =
     \<lparr>subrate_min = SUBRATE_ACTIVE_MIN cfg,
      subrate_max = SUBRATE_ACTIVE_MAX cfg,
      max_latency = 0,
      continuation_number = SUBRATE_ACTIVE_CN cfg,
      supervision_timeout = SUBRATE_TIMEOUT cfg\<rparr>"

definition idle_params :: "config \<Rightarrow> bt_conn_le_subrate_param" where
  "idle_params cfg =
     \<lparr>subrate_min = SUBRATE_IDLE_MIN cfg,
      subrate_max = SUBRATE_IDLE_MAX cfg,
      max_latency = SUBRATE_IDLE_MAX_LATENCY cfg,
      continuation_number = SUBRATE_IDLE_CN cfg,
      supervision_timeout = SUBRATE_TIMEOUT cfg\<rparr>"

definition dormant_params :: "config \<Rightarrow> bt_conn_le_subrate_param" where
  "dormant_params cfg =
     \<lparr>subrate_min = SUBRATE_DORMANT_MIN cfg,
      subrate_max = SUBRATE_DORMANT_MAX cfg,
      max_latency = SUBRATE_DORMANT_MAX_LATENCY cfg,
      continuation_number = SUBRATE_DORMANT_CN cfg,
      supervision_timeout = SUBRATE_TIMEOUT cfg\<rparr>"

subsection \<open>Error numbers\<close>

text \<open>The values of \<^verbatim>\<open>errno.h\<close> the module names (Zephyr's C library numbering).\<close>

definition EINVAL :: int where "EINVAL = 22"
definition EALREADY :: int where "EALREADY = 120"
definition ENOTSUP :: int where "ENOTSUP = 134"

subsection \<open>Connections and the link-layer stack\<close>

datatype bt_conn_role = BT_CONN_ROLE_CENTRAL | BT_CONN_ROLE_PERIPHERAL

datatype bt_conn_state =
  BT_CONN_STATE_DISCONNECTED
| BT_CONN_STATE_CONNECTING
| BT_CONN_STATE_CONNECTED
| BT_CONN_STATE_DISCONNECTING

datatype bt_conn_type = BT_CONN_TYPE_LE | BT_CONN_TYPE_BR | BT_CONN_TYPE_SCO | BT_CONN_TYPE_ISO

text \<open>
  A connection object as this module sees it: its identity, the type
  \<^verbatim>\<open>bt_conn_foreach\<close> selects on, and the two fields of \<^verbatim>\<open>struct bt_conn_info\<close> that
  \<^verbatim>\<open>apply_subrate_to_conn\<close> reads.
\<close>

record bt_conn =
  conn_handle :: nat
  conn_type :: bt_conn_type
  info_role :: bt_conn_role
  info_state :: bt_conn_state

text \<open>
  The Bluetooth stack is an external collaborator. Its part in an operation is a
  parameter: the connection pool at that moment and the return code it gives to each
  of the two calls the module makes.
\<close>

record stack =
  conns :: "bt_conn list"
  subrate_request_rc :: "bt_conn \<Rightarrow> bt_conn_le_subrate_param \<Rightarrow> int"
  set_defaults_rc :: "bt_conn_le_subrate_param \<Rightarrow> int"

subsection \<open>Controller state and observable effects\<close>

datatype subrate_tier = TIER_ACTIVE | TIER_IDLE | TIER_DORMANT

text \<open>
  Everything the module does to the outside, in program order: calls into the stack,
  calls into the work scheduler and log lines.
\<close>

datatype effect =
  Log_inf_tier string bt_conn_le_subrate_param
| Set_defaults bt_conn_le_subrate_param
| Subrate_request bt_conn bt_conn_le_subrate_param
| Log_wrn_request int
| Work_cancel
| Work_schedule nat
| Log_wrn_unhandled int
| Log_err_defaults int
| Log_inf_init

text \<open>
  The file-scope variables \<^verbatim>\<open>current_tier\<close> and \<^verbatim>\<open>dormant_work\<close>, and the effects issued
  so far. \<open>dormant_work = Some r\<close>: the delayable work is armed and expires in \<open>r\<close>
  milliseconds; \<open>None\<close>: it is not armed.
\<close>

record controller =
  current_tier :: subrate_tier
  dormant_work :: "nat option"
  trace :: "effect list"

definition init_controller :: controller where
  "init_controller = \<lparr>current_tier = TIER_IDLE, dormant_work = None, trace = []\<rparr>"

definition emit :: "effect \<Rightarrow> controller \<Rightarrow> controller" where
  "emit e s = s\<lparr>trace := trace s @ [e]\<rparr>"

definition bt_conn_le_subrate_set_defaults ::
  "stack \<Rightarrow> bt_conn_le_subrate_param \<Rightarrow> controller \<Rightarrow> int \<times> controller" where
  "bt_conn_le_subrate_set_defaults st params s =
     (set_defaults_rc st params, emit (Set_defaults params) s)"

definition bt_conn_le_subrate_request ::
  "stack \<Rightarrow> bt_conn \<Rightarrow> bt_conn_le_subrate_param \<Rightarrow> controller \<Rightarrow> int \<times> controller" where
  "bt_conn_le_subrate_request st conn params s =
     (subrate_request_rc st conn params, emit (Subrate_request conn params) s)"

definition bt_conn_foreach ::
  "stack \<Rightarrow> bt_conn_type \<Rightarrow> (bt_conn \<Rightarrow> controller \<Rightarrow> controller) \<Rightarrow> controller \<Rightarrow> controller" where
  "bt_conn_foreach st ty func s = fold func (filter (\<lambda>c. conn_type c = ty) (conns st)) s"

subsection \<open>The work scheduler\<close>

text \<open>
  Modelled from the spec: the deferred-job scheduler (Zephyr's \<^verbatim>\<open>k_work_delayable\<close>
  API), an external collaborator whose code is not in the sources. Sections 5 and 6 of
  the spec: a single reusable job that runs its callback once after the delay unless
  cancelled; cancel is idempotent and safe when nothing is armed; a job that is already
  armed is re-armed only after a cancel. All callbacks are delivered serially.
\<close>

definition k_work_cancel_delayable :: "controller \<Rightarrow> controller" where
  "k_work_cancel_delayable s = emit Work_cancel (s\<lparr>dormant_work := None\<rparr>)"

definition k_work_schedule :: "nat \<Rightarrow> controller \<Rightarrow> controller" where
  "k_work_schedule delay s =
     emit (Work_schedule delay)
       (case dormant_work s of
          None \<Rightarrow> s\<lparr>dormant_work := Some delay\<rparr>
        | Some r \<Rightarrow> s)"

subsection \<open>The apply routine\<close>

definition apply_subrate_to_conn ::
  "stack \<Rightarrow> bt_conn \<Rightarrow> bt_conn_le_subrate_param \<Rightarrow> controller \<Rightarrow> controller" where
  "apply_subrate_to_conn st conn params s =
     (if info_role conn = BT_CONN_ROLE_CENTRAL \<and> info_state conn = BT_CONN_STATE_CONNECTED
      then
        (case bt_conn_le_subrate_request st conn params s of
           (err, s1) \<Rightarrow>
             if err \<noteq> 0 \<and> err \<noteq> - EALREADY then emit (Log_wrn_request err) s1 else s1)
      else s)"

text \<open>
  \<^verbatim>\<open>set_tier\<close>, lines 107-140. The \<^verbatim>\<open>default: return\<close> arm of its switch has no
  counterpart: the three enumerators are all the values of \<open>subrate_tier\<close>.
\<close>

definition tier_params :: "config \<Rightarrow> subrate_tier \<Rightarrow> bt_conn_le_subrate_param \<times> string" where
  "tier_params cfg tier =
     (case tier of
        TIER_ACTIVE \<Rightarrow> (active_params cfg, ''ACTIVE'')
      | TIER_IDLE \<Rightarrow> (idle_params cfg, ''IDLE'')
      | TIER_DORMANT \<Rightarrow> (dormant_params cfg, ''DORMANT''))"

definition set_tier :: "stack \<Rightarrow> config \<Rightarrow> subrate_tier \<Rightarrow> controller \<Rightarrow> controller" where
  "set_tier st cfg tier s =
     (if tier = current_tier s then s
      else
        (case tier_params cfg tier of
           (params, tier_name) \<Rightarrow>
             (case bt_conn_le_subrate_set_defaults st params
                     (emit (Log_inf_tier tier_name params) (s\<lparr>current_tier := tier\<rparr>)) of
                (rc, s1) \<Rightarrow>
                  bt_conn_foreach st BT_CONN_TYPE_LE
                    (\<lambda>conn. apply_subrate_to_conn st conn params) s1)))"

subsection \<open>Timer callback and activity listener\<close>

definition dormant_timer_handler :: "stack \<Rightarrow> config \<Rightarrow> controller \<Rightarrow> controller" where
  "dormant_timer_handler st cfg s = set_tier st cfg TIER_DORMANT s"

definition subrate_active :: "stack \<Rightarrow> config \<Rightarrow> controller \<Rightarrow> controller" where
  "subrate_active st cfg s = set_tier st cfg TIER_ACTIVE (k_work_cancel_delayable s)"

definition subrate_idle :: "stack \<Rightarrow> config \<Rightarrow> controller \<Rightarrow> controller" where
  "subrate_idle st cfg s =
     k_work_schedule (SUBRATE_DORMANT_DELAY_MS cfg)
       (set_tier st cfg TIER_IDLE (k_work_cancel_delayable s))"

text \<open>
  \<^verbatim>\<open>enum zmk_activity_state\<close> of ZMK's activity header, in declaration order. The field
  \<^verbatim>\<open>ev->state\<close> is read as the integer the switch compares.
\<close>

definition ZMK_ACTIVITY_ACTIVE :: int where "ZMK_ACTIVITY_ACTIVE = 0"
definition ZMK_ACTIVITY_IDLE :: int where "ZMK_ACTIVITY_IDLE = 1"
definition ZMK_ACTIVITY_SLEEP :: int where "ZMK_ACTIVITY_SLEEP = 2"

text \<open>
  An event of the event manager: an activity-state change carrying its state, or an
  event of any other type, for which \<^verbatim>\<open>as_zmk_activity_state_changed\<close> gives \<^verbatim>\<open>NULL\<close>.
\<close>

datatype zmk_event = Activity_state_changed int | Other_event

fun as_zmk_activity_state_changed :: "zmk_event \<Rightarrow> int option" where
  "as_zmk_activity_state_changed (Activity_state_changed v) = Some v"
| "as_zmk_activity_state_changed Other_event = None"

definition subrating_activity_listener ::
  "stack \<Rightarrow> config \<Rightarrow> zmk_event \<Rightarrow> controller \<Rightarrow> int \<times> controller" where
  "subrating_activity_listener st cfg eh s =
     (case as_zmk_activity_state_changed eh of
        None \<Rightarrow> (- ENOTSUP, s)
      | Some ev_state \<Rightarrow>
          if ev_state = ZMK_ACTIVITY_ACTIVE then (0, subrate_active st cfg s)
          else if ev_state = ZMK_ACTIVITY_IDLE \<or> ev_state = ZMK_ACTIVITY_SLEEP
            then (0, subrate_idle st cfg s)
          else (- EINVAL, emit (Log_wrn_unhandled ev_state) s))"

definition zmk_sdc_subrating_init :: "stack \<Rightarrow> config \<Rightarrow> controller \<Rightarrow> int \<times> controller" where
  "zmk_sdc_subrating_init st cfg s =
     (case bt_conn_le_subrate_set_defaults st (idle_params cfg) s of
        (err, s1) \<Rightarrow>
          if err \<noteq> 0 then (err, emit (Log_err_defaults err) s1)
          else (0, emit Log_inf_init s1))"

text \<open>
  Modelled from the spec: the passing of time as the scheduler sees it (the scheduler is
  not in the sources). When \<open>d\<close> milliseconds pass with no event, an armed job whose
  remaining delay is at most \<open>d\<close> leaves the armed state and its callback
  \<^verbatim>\<open>dormant_timer_handler\<close> runs once; otherwise its remaining delay shrinks by \<open>d\<close>.
\<close>

definition elapse :: "stack \<Rightarrow> config \<Rightarrow> nat \<Rightarrow> controller \<Rightarrow> controller" where
  "elapse st cfg d s =
     (case dormant_work s of
        None \<Rightarrow> s
      | Some r \<Rightarrow>
          if r \<le> d then dormant_timer_handler st cfg (s\<lparr>dormant_work := None\<rparr>)
          else s\<lparr>dormant_work := Some (r - d)\<rparr>)"

subsection \<open>Reading a trace\<close>

fun is_broadcast_start :: "effect \<Rightarrow> bool" where
  "is_broadcast_start (Set_defaults p) = True"
| "is_broadcast_start e = False"

text \<open>Every broadcast of \<^verbatim>\<open>set_tier\<close> starts with one installation of the defaults.\<close>

definition broadcasts :: "effect list \<Rightarrow> nat" where
  "broadcasts tr = length (filter is_broadcast_start tr)"

fun requests :: "effect list \<Rightarrow> (bt_conn \<times> bt_conn_le_subrate_param) list" where
  "requests [] = []"
| "requests (Subrate_request c p # tr) = (c, p) # requests tr"
| "requests (e # tr) = requests tr"

fun is_stack_call :: "effect \<Rightarrow> bool" where
  "is_stack_call (Set_defaults p) = True"
| "is_stack_call (Subrate_request c p) = True"
| "is_stack_call e = False"

text \<open>The protocol traffic of a trace: the calls into the stack, in order.\<close>

definition traffic :: "effect list \<Rightarrow> effect list" where
  "traffic tr = filter is_stack_call tr"

fun warnings :: "effect list \<Rightarrow> int list" where
  "warnings [] = []"
| "warnings (Log_wrn_request err # tr) = err # warnings tr"
| "warnings (e # tr) = warnings tr"

text \<open>The test of line 99 on a connection of the pool \<^verbatim>\<open>bt_conn_foreach\<close> walks.\<close>

definition targeted :: "bt_conn \<Rightarrow> bool" where
  "targeted c \<longleftrightarrow>
     conn_type c = BT_CONN_TYPE_LE \<and> info_role c = BT_CONN_ROLE_CENTRAL \<and>
     info_state c = BT_CONN_STATE_CONNECTED"

subsection \<open>Runs\<close>

text \<open>
  What happens to the controller over time: an event reaches the listener, or time
  passes with no event. Each input comes with the stack as it is at that moment.
\<close>

datatype input = Event zmk_event | Elapse nat

fun step :: "config \<Rightarrow> stack \<times> input \<Rightarrow> controller \<Rightarrow> controller" where
  "step cfg (st, Event eh) s = snd (subrating_activity_listener st cfg eh s)"
| "step cfg (st, Elapse d) s = elapse st cfg d s"

text \<open>The controller after each input of a run, in order.\<close>

fun run_states :: "config \<Rightarrow> (stack \<times> input) list \<Rightarrow> controller \<Rightarrow> controller list" where
  "run_states cfg [] s = []"
| "run_states cfg (i # ins) s = step cfg i s # run_states cfg ins (step cfg i s)"

fun run :: "config \<Rightarrow> (stack \<times> input) list \<Rightarrow> controller \<Rightarrow> controller" where
  "run cfg [] s = s"
| "run cfg (i # ins) s = run cfg ins (step cfg i s)"

fun is_wait :: "stack \<times> input \<Rightarrow> bool" where
  "is_wait (st, Elapse d) = True"
| "is_wait (st, Event eh) = False"

fun duration :: "stack \<times> input \<Rightarrow> nat" where
  "duration (st, Elapse d) = d"
| "duration (st, Event eh) = 0"

definition total_time :: "(stack \<times> input) list \<Rightarrow> nat" where
  "total_time ins = sum_list (map duration ins)"

subsection \<open>Example environment\<close>

definition cfg0 :: config where
  "cfg0 =
     \<lparr>SUBRATE_TIMEOUT = 400, SUBRATE_DORMANT_DELAY_MS = 30000,
      SUBRATE_ACTIVE_MIN = 1, SUBRATE_ACTIVE_MAX = 1, SUBRATE_ACTIVE_CN = 0,
      SUBRATE_IDLE_MIN = 6, SUBRATE_IDLE_MAX = 10, SUBRATE_IDLE_CN = 1,
      SUBRATE_IDLE_MAX_LATENCY = 0,
      SUBRATE_DORMANT_MIN = 20, SUBRATE_DORMANT_MAX = 50, SUBRATE_DORMANT_CN = 1,
      SUBRATE_DORMANT_MAX_LATENCY = 1\<rparr>"

definition conn_a :: bt_conn where
  "conn_a = \<lparr>conn_handle = 0, conn_type = BT_CONN_TYPE_LE,
     info_role = BT_CONN_ROLE_CENTRAL, info_state = BT_CONN_STATE_CONNECTED\<rparr>"

definition conn_b :: bt_conn where
  "conn_b = \<lparr>conn_handle = 1, conn_type = BT_CONN_TYPE_LE,
     info_role = BT_CONN_ROLE_PERIPHERAL, info_state = BT_CONN_STATE_CONNECTED\<rparr>"

definition conn_c :: bt_conn where
  "conn_c = \<lparr>conn_handle = 2, conn_type = BT_CONN_TYPE_LE,
     info_role = BT_CONN_ROLE_CENTRAL, info_state = BT_CONN_STATE_DISCONNECTED\<rparr>"

definition conn_d :: bt_conn where
  "conn_d = \<lparr>conn_handle = 3, conn_type = BT_CONN_TYPE_LE,
     info_role = BT_CONN_ROLE_CENTRAL, info_state = BT_CONN_STATE_CONNECTED\<rparr>"

text \<open>
  A stack with four connections that rejects every request on the first one with
  \<^verbatim>\<open>-EIO\<close>, every request on the last one with \<^verbatim>\<open>-EALREADY\<close>, and accepts the rest.
\<close>

definition stack0 :: stack where
  "stack0 =
     \<lparr>conns = [conn_a, conn_b, conn_c, conn_d],
      subrate_request_rc =
        (\<lambda>c p. if conn_handle c = 0 then - 5 else if conn_handle c = 3 then - EALREADY else 0),
      set_defaults_rc = (\<lambda>p. 0)\<rparr>"

definition stack_ok :: stack where
  "stack_ok =
     \<lparr>conns = [conn_a, conn_b, conn_c, conn_d],
      subrate_request_rc = (\<lambda>c p. 0),
      set_defaults_rc = (\<lambda>p. 0)\<rparr>"

section \<open>Properties\<close>

subsection \<open>What one tier change does\<close>

text \<open>The effects of offering the parameters to one connection.\<close>

definition conn_effects :: "stack \<Rightarrow> bt_conn_le_subrate_param \<Rightarrow> bt_conn \<Rightarrow> effect list" where
  "conn_effects st params conn =
     (if info_role conn = BT_CONN_ROLE_CENTRAL \<and> info_state conn = BT_CONN_STATE_CONNECTED
      then Subrate_request conn params #
        (if subrate_request_rc st conn params \<noteq> 0 \<and> subrate_request_rc st conn params \<noteq> - EALREADY
         then [Log_wrn_request (subrate_request_rc st conn params)] else [])
      else [])"

definition tier_effects :: "stack \<Rightarrow> config \<Rightarrow> subrate_tier \<Rightarrow> effect list" where
  "tier_effects st cfg tier =
     Log_inf_tier (snd (tier_params cfg tier)) (fst (tier_params cfg tier)) #
     Set_defaults (fst (tier_params cfg tier)) #
     concat (map (conn_effects st (fst (tier_params cfg tier)))
       (filter (\<lambda>c. conn_type c = BT_CONN_TYPE_LE) (conns st)))"

lemma apply_subrate_to_conn_eq:
  "apply_subrate_to_conn st conn params s = s\<lparr>trace := trace s @ conn_effects st params conn\<rparr>"
  by (simp add: apply_subrate_to_conn_def conn_effects_def bt_conn_le_subrate_request_def emit_def)

lemma fold_apply_eq:
  "fold (\<lambda>conn. apply_subrate_to_conn st conn params) cs s =
     s\<lparr>trace := trace s @ concat (map (conn_effects st params) cs)\<rparr>"
  by (induction cs arbitrary: s) (simp_all add: apply_subrate_to_conn_eq)

lemma set_tier_change:
  "tier \<noteq> current_tier s \<Longrightarrow>
     set_tier st cfg tier s = s\<lparr>current_tier := tier, trace := trace s @ tier_effects st cfg tier\<rparr>"
  by (simp add: set_tier_def bt_conn_foreach_def fold_apply_eq tier_effects_def
      bt_conn_le_subrate_set_defaults_def emit_def split: prod.split)

lemma set_tier_same: "set_tier st cfg (current_tier s) s = s"
  by (simp add: set_tier_def)

lemma current_tier_set_tier: "current_tier (set_tier st cfg tier s) = tier"
  by (cases "tier = current_tier s") (simp_all add: set_tier_change set_tier_same)

lemma dormant_work_set_tier: "dormant_work (set_tier st cfg tier s) = dormant_work s"
  by (cases "tier = current_tier s") (simp_all add: set_tier_change set_tier_same)

lemma trace_set_tier:
  "trace (set_tier st cfg tier s) =
     trace s @ (if tier = current_tier s then [] else tier_effects st cfg tier)"
  by (cases "tier = current_tier s") (simp_all add: set_tier_change set_tier_same)

subsection \<open>Counting broadcasts\<close>

lemma broadcasts_Nil: "broadcasts [] = 0"
  by (simp add: broadcasts_def)

lemma broadcasts_append: "broadcasts (xs @ ys) = broadcasts xs + broadcasts ys"
  by (simp add: broadcasts_def)

lemma broadcasts_conn_effects: "broadcasts (concat (map (conn_effects st p) cs)) = 0"
  by (induction cs) (simp_all add: broadcasts_def conn_effects_def)

lemma broadcasts_tier_effects: "broadcasts (tier_effects st cfg tier) = 1"
  using broadcasts_conn_effects [of st "fst (tier_params cfg tier)"]
  by (simp add: tier_effects_def broadcasts_def)

text \<open>
  Claim C1, as amended. \<^verbatim>\<open>set_tier\<close> called with the current tier returns the controller
  as it was: no default update, no request, no change of state. Hence a second call with
  the same tier, whatever the stack does then, changes nothing after the first, and the
  two calls together make one broadcast when the tier differs from the tier current
  before the first call, and none when it is that tier already.
\<close>

theorem set_tier_idempotent:
  "set_tier st cfg (current_tier s) s = s \<and>
   set_tier st' cfg tier (set_tier st cfg tier s) = set_tier st cfg tier s \<and>
   broadcasts (trace (set_tier st' cfg tier (set_tier st cfg tier s))) =
     broadcasts (trace s) + (if tier = current_tier s then 0 else 1)"
proof -
  have same: "set_tier st' cfg tier (set_tier st cfg tier s) = set_tier st cfg tier s"
    using set_tier_same [of st' cfg "set_tier st cfg tier s"]
    by (simp add: current_tier_set_tier)
  have count: "broadcasts (trace (set_tier st cfg tier s)) =
      broadcasts (trace s) + (if tier = current_tier s then 0 else 1)"
    by (simp add: trace_set_tier broadcasts_append broadcasts_tier_effects broadcasts_Nil)
  show ?thesis
    using same count by (simp add: set_tier_same)
qed

theorem set_tier_idempotent_witness:
  "set_tier stack0 cfg0 TIER_ACTIVE (set_tier stack0 cfg0 TIER_ACTIVE init_controller)
     = set_tier stack0 cfg0 TIER_ACTIVE init_controller \<and>
   broadcasts (trace (set_tier stack0 cfg0 TIER_ACTIVE
     (set_tier stack0 cfg0 TIER_ACTIVE init_controller))) = 1"
proof -
  note t = set_tier_idempotent [of stack0 cfg0 init_controller stack0 TIER_ACTIVE]
  have c: "current_tier init_controller = TIER_IDLE" "trace init_controller = []"
    by (simp_all add: init_controller_def)
  have one: "broadcasts (trace (set_tier stack0 cfg0 TIER_ACTIVE
      (set_tier stack0 cfg0 TIER_ACTIVE init_controller))) = 1"
    using t c by (auto simp: broadcasts_Nil)
  show ?thesis
    using t one by blast
qed

text \<open>
  The claim as stated, "twice in a row with the same tier produces exactly one
  broadcast", fails from the start state: the tier is IDLE there, and two calls of
  \<^verbatim>\<open>set_tier(TIER_IDLE)\<close> produce no broadcast at all.
\<close>

theorem set_tier_twice_counterexample:
  "broadcasts (trace (set_tier stack0 cfg0 TIER_IDLE
     (set_tier stack0 cfg0 TIER_IDLE init_controller))) = 0"
  by (simp add: set_tier_def init_controller_def broadcasts_def)

subsection \<open>Which connections a broadcast reaches\<close>

lemma requests_append: "requests (xs @ ys) = requests xs @ requests ys"
  by (induction xs rule: requests.induct) simp_all

lemma requests_conn_effects:
  "requests (concat (map (conn_effects st p) cs)) =
     map (\<lambda>c. (c, p))
       (filter (\<lambda>c. info_role c = BT_CONN_ROLE_CENTRAL \<and> info_state c = BT_CONN_STATE_CONNECTED) cs)"
  by (induction cs) (simp_all add: conn_effects_def requests_append)

lemma filter_targeted:
  "filter (\<lambda>c. conn_type c = BT_CONN_TYPE_LE \<and> info_role c = BT_CONN_ROLE_CENTRAL \<and>
       info_state c = BT_CONN_STATE_CONNECTED) cs = filter targeted cs"
  by (induction cs) (simp_all add: targeted_def)

lemma requests_tier_effects:
  "requests (tier_effects st cfg tier) =
     map (\<lambda>c. (c, fst (tier_params cfg tier))) (filter targeted (conns st))"
  by (simp add: tier_effects_def requests_conn_effects filter_targeted)

lemma requests_set_tier:
  "requests (trace (set_tier st cfg tier s)) =
     requests (trace s) @
     (if tier = current_tier s then []
      else map (\<lambda>c. (c, fst (tier_params cfg tier))) (filter targeted (conns st)))"
  by (simp add: trace_set_tier requests_append requests_tier_effects)

text \<open>
  Claim C2. A tier change requests the new parameters on exactly the connections of the
  pool that pass the test of line 99, in pool order, each once: every connection a
  request of this call goes to is in the pool, has the central role and is connected.
  A peripheral-role connection or one in any other state gets no request.
\<close>

theorem broadcast_scope:
  "requests (trace (set_tier st cfg tier s)) =
     requests (trace s) @
     (if tier = current_tier s then []
      else map (\<lambda>c. (c, fst (tier_params cfg tier))) (filter targeted (conns st))) \<and>
   (\<forall>c p. (c, p) \<in> set (drop (length (requests (trace s)))
                (requests (trace (set_tier st cfg tier s)))) \<longrightarrow>
      c \<in> set (conns st) \<and> info_role c = BT_CONN_ROLE_CENTRAL \<and>
      info_state c = BT_CONN_STATE_CONNECTED \<and> p = fst (tier_params cfg tier))"
proof -
  have new: "drop (length (requests (trace s))) (requests (trace (set_tier st cfg tier s))) =
      (if tier = current_tier s then []
       else map (\<lambda>c. (c, fst (tier_params cfg tier))) (filter targeted (conns st)))"
    by (simp add: requests_set_tier)
  show ?thesis
    unfolding new by (auto simp: requests_set_tier targeted_def)
qed

theorem broadcast_scope_witness:
  "requests (trace (set_tier stack0 cfg0 TIER_ACTIVE init_controller)) =
     [(conn_a, active_params cfg0), (conn_d, active_params cfg0)] \<and>
   (conn_d, active_params cfg0) \<in> set (drop (length (requests (trace init_controller)))
     (requests (trace (set_tier stack0 cfg0 TIER_ACTIVE init_controller)))) \<and>
   conn_d \<in> set (conns stack0) \<and> info_role conn_d = BT_CONN_ROLE_CENTRAL \<and>
   info_state conn_d = BT_CONN_STATE_CONNECTED"
proof -
  note t = broadcast_scope [of stack0 cfg0 TIER_ACTIVE init_controller]
  have c: "current_tier init_controller = TIER_IDLE" "trace init_controller = []"
    by (simp_all add: init_controller_def)
  have f: "filter targeted (conns stack0) = [conn_a, conn_d]"
    by (simp add: stack0_def targeted_def conn_a_def conn_b_def conn_c_def conn_d_def)
  have p: "fst (tier_params cfg0 TIER_ACTIVE) = active_params cfg0"
    by (simp add: tier_params_def)
  have r: "requests (trace (set_tier stack0 cfg0 TIER_ACTIVE init_controller)) =
      [(conn_a, active_params cfg0), (conn_d, active_params cfg0)]"
    using t [THEN conjunct1] by (simp add: c f p)
  have m: "(conn_d, active_params cfg0) \<in> set (drop (length (requests (trace init_controller)))
      (requests (trace (set_tier stack0 cfg0 TIER_ACTIVE init_controller))))"
    by (simp add: r c)
  have q: "conn_d \<in> set (conns stack0) \<and> info_role conn_d = BT_CONN_ROLE_CENTRAL \<and>
      info_state conn_d = BT_CONN_STATE_CONNECTED"
    using t [THEN conjunct2] m by blast
  show ?thesis
    using r m q by blast
qed

subsection \<open>The scheduler calls and the listener\<close>

lemma current_tier_cancel: "current_tier (k_work_cancel_delayable s) = current_tier s"
  by (simp add: k_work_cancel_delayable_def emit_def)

lemma dormant_work_cancel: "dormant_work (k_work_cancel_delayable s) = None"
  by (simp add: k_work_cancel_delayable_def emit_def)

lemma trace_cancel: "trace (k_work_cancel_delayable s) = trace s @ [Work_cancel]"
  by (simp add: k_work_cancel_delayable_def emit_def)

lemma current_tier_schedule: "current_tier (k_work_schedule d s) = current_tier s"
  by (simp add: k_work_schedule_def emit_def split: option.split)

lemma trace_schedule: "trace (k_work_schedule d s) = trace s @ [Work_schedule d]"
  by (simp add: k_work_schedule_def emit_def split: option.split)

lemma dormant_work_schedule:
  "dormant_work (k_work_schedule d s) = (case dormant_work s of None \<Rightarrow> Some d | Some r \<Rightarrow> Some r)"
  by (simp add: k_work_schedule_def emit_def split: option.split)

lemma listener_active:
  "subrating_activity_listener st cfg (Activity_state_changed ZMK_ACTIVITY_ACTIVE) s =
     (0, subrate_active st cfg s)"
  by (simp add: subrating_activity_listener_def)

lemma listener_idle:
  "subrating_activity_listener st cfg (Activity_state_changed ZMK_ACTIVITY_IDLE) s =
     (0, subrate_idle st cfg s)"
  by (simp add: subrating_activity_listener_def ZMK_ACTIVITY_ACTIVE_def ZMK_ACTIVITY_IDLE_def)

lemma listener_sleep:
  "subrating_activity_listener st cfg (Activity_state_changed ZMK_ACTIVITY_SLEEP) s =
     (0, subrate_idle st cfg s)"
  by (simp add: subrating_activity_listener_def ZMK_ACTIVITY_ACTIVE_def ZMK_ACTIVITY_SLEEP_def)

lemma current_tier_subrate_idle: "current_tier (subrate_idle st cfg s) = TIER_IDLE"
  by (simp add: subrate_idle_def current_tier_schedule current_tier_set_tier)

lemma dormant_work_subrate_idle:
  "dormant_work (subrate_idle st cfg s) = Some (SUBRATE_DORMANT_DELAY_MS cfg)"
  by (simp add: subrate_idle_def dormant_work_schedule dormant_work_set_tier dormant_work_cancel)

lemma trace_subrate_idle:
  "trace (subrate_idle st cfg s) =
     trace s @ [Work_cancel] @
     (if current_tier s = TIER_IDLE then [] else tier_effects st cfg TIER_IDLE) @
     [Work_schedule (SUBRATE_DORMANT_DELAY_MS cfg)]"
  by (auto simp: subrate_idle_def trace_schedule trace_set_tier trace_cancel current_tier_cancel)

text \<open>
  Claim C3. From every controller state and with every stack, the listener handles an
  ACTIVE event by returning 0 with the tier ACTIVE and the dormant work not armed.
\<close>

theorem active_event:
  "fst (subrating_activity_listener st cfg (Activity_state_changed ZMK_ACTIVITY_ACTIVE) s) = 0 \<and>
   current_tier (snd (subrating_activity_listener st cfg
     (Activity_state_changed ZMK_ACTIVITY_ACTIVE) s)) = TIER_ACTIVE \<and>
   dormant_work (snd (subrating_activity_listener st cfg
     (Activity_state_changed ZMK_ACTIVITY_ACTIVE) s)) = None"
  by (simp add: listener_active subrate_active_def current_tier_set_tier
      dormant_work_set_tier dormant_work_cancel)

theorem active_event_witness:
  "fst (subrating_activity_listener stack0 cfg0 (Activity_state_changed ZMK_ACTIVITY_ACTIVE)
     \<lparr>current_tier = TIER_DORMANT, dormant_work = Some 100, trace = []\<rparr>) = 0 \<and>
   current_tier (snd (subrating_activity_listener stack0 cfg0
     (Activity_state_changed ZMK_ACTIVITY_ACTIVE)
     \<lparr>current_tier = TIER_DORMANT, dormant_work = Some 100, trace = []\<rparr>)) = TIER_ACTIVE \<and>
   dormant_work (snd (subrating_activity_listener stack0 cfg0
     (Activity_state_changed ZMK_ACTIVITY_ACTIVE)
     \<lparr>current_tier = TIER_DORMANT, dormant_work = Some 100, trace = []\<rparr>)) = None"
  using active_event [of stack0 cfg0
      "\<lparr>current_tier = TIER_DORMANT, dormant_work = Some 100, trace = []\<rparr>"] .

text \<open>
  Claim C4. An IDLE event and a SLEEP event are handled alike, from every controller
  state: the result is that of cancelling the dormant work, then \<^verbatim>\<open>set_tier(TIER_IDLE)\<close>,
  then scheduling the dormant work with the dormant delay. Afterwards the tier is IDLE,
  the work is armed with the full delay, and the effects are the cancel, those of the
  tier change, and the schedule call, in that order.
\<close>

theorem idle_sleep_same:
  "subrating_activity_listener st cfg (Activity_state_changed ZMK_ACTIVITY_SLEEP) s =
     subrating_activity_listener st cfg (Activity_state_changed ZMK_ACTIVITY_IDLE) s \<and>
   subrating_activity_listener st cfg (Activity_state_changed ZMK_ACTIVITY_IDLE) s =
     (0, k_work_schedule (SUBRATE_DORMANT_DELAY_MS cfg)
           (set_tier st cfg TIER_IDLE (k_work_cancel_delayable s))) \<and>
   current_tier (snd (subrating_activity_listener st cfg
     (Activity_state_changed ZMK_ACTIVITY_IDLE) s)) = TIER_IDLE \<and>
   dormant_work (snd (subrating_activity_listener st cfg
     (Activity_state_changed ZMK_ACTIVITY_IDLE) s)) = Some (SUBRATE_DORMANT_DELAY_MS cfg) \<and>
   trace (snd (subrating_activity_listener st cfg
     (Activity_state_changed ZMK_ACTIVITY_IDLE) s)) =
     trace s @ [Work_cancel] @
     trace (set_tier st cfg TIER_IDLE (s\<lparr>trace := []\<rparr>)) @
     [Work_schedule (SUBRATE_DORMANT_DELAY_MS cfg)]"
  by (simp add: listener_idle listener_sleep current_tier_subrate_idle
      dormant_work_subrate_idle trace_subrate_idle trace_set_tier)
    (simp add: subrate_idle_def)

theorem idle_sleep_same_witness:
  "subrating_activity_listener stack0 cfg0 (Activity_state_changed ZMK_ACTIVITY_SLEEP)
     \<lparr>current_tier = TIER_ACTIVE, dormant_work = Some 7, trace = []\<rparr> =
   subrating_activity_listener stack0 cfg0 (Activity_state_changed ZMK_ACTIVITY_IDLE)
     \<lparr>current_tier = TIER_ACTIVE, dormant_work = Some 7, trace = []\<rparr> \<and>
   dormant_work (snd (subrating_activity_listener stack0 cfg0
     (Activity_state_changed ZMK_ACTIVITY_IDLE)
     \<lparr>current_tier = TIER_ACTIVE, dormant_work = Some 7, trace = []\<rparr>)) = Some 30000"
proof -
  note t = idle_sleep_same [of stack0 cfg0
      "\<lparr>current_tier = TIER_ACTIVE, dormant_work = Some 7, trace = []\<rparr>"]
  have d: "SUBRATE_DORMANT_DELAY_MS cfg0 = 30000"
    by (simp add: cfg0_def)
  show ?thesis
    using t [THEN conjunct1] t [THEN conjunct2, THEN conjunct2, THEN conjunct2, THEN conjunct1]
    by (simp only: d)
qed

subsection \<open>Request failures and unsupported events\<close>

lemma traffic_append: "traffic (xs @ ys) = traffic xs @ traffic ys"
  by (simp add: traffic_def)

lemma traffic_Nil: "traffic [] = []"
  by (simp add: traffic_def)

lemma traffic_conn_effects:
  "traffic (concat (map (conn_effects st p) cs)) =
     map (\<lambda>c. Subrate_request c p)
       (filter (\<lambda>c. info_role c = BT_CONN_ROLE_CENTRAL \<and> info_state c = BT_CONN_STATE_CONNECTED) cs)"
  by (induction cs) (simp_all add: conn_effects_def traffic_def)

lemma traffic_tier_effects:
  "traffic (tier_effects st cfg tier) =
     Set_defaults (fst (tier_params cfg tier)) #
     map (\<lambda>c. Subrate_request c (fst (tier_params cfg tier))) (filter targeted (conns st))"
  using traffic_conn_effects [of st "fst (tier_params cfg tier)"
      "filter (\<lambda>c. conn_type c = BT_CONN_TYPE_LE) (conns st)"]
  by (simp add: tier_effects_def traffic_def filter_targeted)

lemma warnings_append: "warnings (xs @ ys) = warnings xs @ warnings ys"
  by (induction xs rule: warnings.induct) simp_all

lemma warnings_conn_effects:
  "warnings (concat (map (conn_effects st p) cs)) =
     filter (\<lambda>e. e \<noteq> 0 \<and> e \<noteq> - EALREADY)
       (map (\<lambda>c. subrate_request_rc st c p)
         (filter (\<lambda>c. info_role c = BT_CONN_ROLE_CENTRAL \<and> info_state c = BT_CONN_STATE_CONNECTED) cs))"
  by (induction cs) (simp_all add: conn_effects_def warnings_append)

lemma warnings_tier_effects:
  "warnings (tier_effects st cfg tier) =
     filter (\<lambda>e. e \<noteq> 0 \<and> e \<noteq> - EALREADY)
       (map (\<lambda>c. subrate_request_rc st c (fst (tier_params cfg tier))) (filter targeted (conns st)))"
  using warnings_conn_effects [of st "fst (tier_params cfg tier)"
      "filter (\<lambda>c. conn_type c = BT_CONN_TYPE_LE) (conns st)"]
  by (simp add: tier_effects_def filter_targeted)

lemma traffic_set_tier:
  "traffic (trace (set_tier st cfg tier s)) =
     traffic (trace s) @
     (if tier = current_tier s then []
      else Set_defaults (fst (tier_params cfg tier)) #
        map (\<lambda>c. Subrate_request c (fst (tier_params cfg tier))) (filter targeted (conns st)))"
  by (simp add: trace_set_tier traffic_append traffic_tier_effects traffic_Nil)

lemma warnings_set_tier:
  "warnings (trace (set_tier st cfg tier s)) =
     warnings (trace s) @
     (if tier = current_tier s then []
      else filter (\<lambda>e. e \<noteq> 0 \<and> e \<noteq> - EALREADY)
        (map (\<lambda>c. subrate_request_rc st c (fst (tier_params cfg tier)))
          (filter targeted (conns st))))"
  by (simp add: trace_set_tier warnings_append warnings_tier_effects)

text \<open>
  Claim C7. For one connection: a request is followed by a warning line exactly when the
  stack's return code is neither 0 nor \<^verbatim>\<open>-EALREADY\<close>, and the tier is untouched. For a
  whole tier change, whatever the return codes are: the tier recorded is the target, the
  calls into the stack are the installation of the defaults followed by one request per
  targeted connection (none is skipped after a failure, nothing is issued after them that
  would undo the defaults), and the warnings are the return codes of the targeted
  connections other than 0 and \<^verbatim>\<open>-EALREADY\<close>, in order.
\<close>

theorem request_failures_not_fatal:
  "trace (apply_subrate_to_conn st conn params s) =
     trace s @
     (if info_role conn = BT_CONN_ROLE_CENTRAL \<and> info_state conn = BT_CONN_STATE_CONNECTED
      then Subrate_request conn params #
        (if subrate_request_rc st conn params = 0 \<or>
            subrate_request_rc st conn params = - EALREADY
         then [] else [Log_wrn_request (subrate_request_rc st conn params)])
      else []) \<and>
   current_tier (apply_subrate_to_conn st conn params s) = current_tier s \<and>
   current_tier (set_tier st cfg tier s) = tier \<and>
   traffic (trace (set_tier st cfg tier s)) =
     traffic (trace s) @
     (if tier = current_tier s then []
      else Set_defaults (fst (tier_params cfg tier)) #
        map (\<lambda>c. Subrate_request c (fst (tier_params cfg tier))) (filter targeted (conns st))) \<and>
   warnings (trace (set_tier st cfg tier s)) =
     warnings (trace s) @
     (if tier = current_tier s then []
      else filter (\<lambda>e. e \<noteq> 0 \<and> e \<noteq> - EALREADY)
        (map (\<lambda>c. subrate_request_rc st c (fst (tier_params cfg tier)))
          (filter targeted (conns st))))"
proof -
  have one: "trace (apply_subrate_to_conn st conn params s) =
     trace s @
     (if info_role conn = BT_CONN_ROLE_CENTRAL \<and> info_state conn = BT_CONN_STATE_CONNECTED
      then Subrate_request conn params #
        (if subrate_request_rc st conn params = 0 \<or>
            subrate_request_rc st conn params = - EALREADY
         then [] else [Log_wrn_request (subrate_request_rc st conn params)])
      else [])"
    by (simp add: apply_subrate_to_conn_eq conn_effects_def)
  have tier1: "current_tier (apply_subrate_to_conn st conn params s) = current_tier s"
    by (simp add: apply_subrate_to_conn_eq)
  show ?thesis
    using one tier1 current_tier_set_tier [of st cfg tier s]
      traffic_set_tier [of st cfg tier s] warnings_set_tier [of st cfg tier s]
    by (intro conjI)
qed

theorem request_failures_not_fatal_witness:
  "subrate_request_rc stack0 conn_a (active_params cfg0) = - 5 \<and>
   subrate_request_rc stack0 conn_d (active_params cfg0) = - EALREADY \<and>
   current_tier (set_tier stack0 cfg0 TIER_ACTIVE init_controller) = TIER_ACTIVE \<and>
   traffic (trace (set_tier stack0 cfg0 TIER_ACTIVE init_controller)) =
     [Set_defaults (active_params cfg0), Subrate_request conn_a (active_params cfg0),
      Subrate_request conn_d (active_params cfg0)] \<and>
   warnings (trace (set_tier stack0 cfg0 TIER_ACTIVE init_controller)) = [- 5]"
proof -
  note t = request_failures_not_fatal [of stack0 conn_a "active_params cfg0" init_controller
      cfg0 TIER_ACTIVE]
  have c: "current_tier init_controller = TIER_IDLE" "trace init_controller = []"
    by (simp_all add: init_controller_def)
  have f: "filter targeted (conns stack0) = [conn_a, conn_d]"
    by (simp add: stack0_def targeted_def conn_a_def conn_b_def conn_c_def conn_d_def)
  have p: "fst (tier_params cfg0 TIER_ACTIVE) = active_params cfg0"
    by (simp add: tier_params_def)
  have ra: "subrate_request_rc stack0 conn_a (active_params cfg0) = - 5"
    by (simp add: stack0_def conn_a_def)
  have rd: "subrate_request_rc stack0 conn_d (active_params cfg0) = - EALREADY"
    by (simp add: stack0_def conn_d_def)
  have tr: "traffic [] = []" "warnings [] = []"
    by (simp_all add: traffic_def)
  have e: "(5::int) \<noteq> EALREADY" "EALREADY \<noteq> 0"
    by (simp_all add: EALREADY_def)
  have a: "current_tier (set_tier stack0 cfg0 TIER_ACTIVE init_controller) = TIER_ACTIVE"
    using t by blast
  have b: "traffic (trace (set_tier stack0 cfg0 TIER_ACTIVE init_controller)) =
     [Set_defaults (active_params cfg0), Subrate_request conn_a (active_params cfg0),
      Subrate_request conn_d (active_params cfg0)]"
    using t [THEN conjunct2, THEN conjunct2, THEN conjunct2, THEN conjunct1]
    by (simp add: c f p tr)
  have w: "warnings (trace (set_tier stack0 cfg0 TIER_ACTIVE init_controller)) = [- 5]"
    using t [THEN conjunct2, THEN conjunct2, THEN conjunct2, THEN conjunct2]
    by (simp add: c f p tr ra rd e)
  show ?thesis
    using ra rd a b w by (intro conjI)
qed

text \<open>
  Claim C8. The listener returns 0 exactly for an activity event whose state is ACTIVE,
  IDLE or SLEEP. Whenever it returns another code, the tier and the dormant work are as
  before and no call into the stack is made: an event of another type gives
  \<^verbatim>\<open>-ENOTSUP\<close> and the unchanged controller, an unrecognised activity value gives
  \<^verbatim>\<open>-EINVAL\<close> and only a warning line.
\<close>

theorem unsupported_event:
  "(fst (subrating_activity_listener st cfg eh s) = 0) =
     (eh = Activity_state_changed ZMK_ACTIVITY_ACTIVE \<or>
      eh = Activity_state_changed ZMK_ACTIVITY_IDLE \<or>
      eh = Activity_state_changed ZMK_ACTIVITY_SLEEP) \<and>
   (fst (subrating_activity_listener st cfg eh s) \<noteq> 0 \<longrightarrow>
      current_tier (snd (subrating_activity_listener st cfg eh s)) = current_tier s \<and>
      dormant_work (snd (subrating_activity_listener st cfg eh s)) = dormant_work s \<and>
      traffic (trace (snd (subrating_activity_listener st cfg eh s))) = traffic (trace s)) \<and>
   subrating_activity_listener st cfg Other_event s = (- ENOTSUP, s) \<and>
   (v \<noteq> ZMK_ACTIVITY_ACTIVE \<and> v \<noteq> ZMK_ACTIVITY_IDLE \<and> v \<noteq> ZMK_ACTIVITY_SLEEP \<longrightarrow>
      subrating_activity_listener st cfg (Activity_state_changed v) s =
        (- EINVAL, emit (Log_wrn_unhandled v) s))"
proof (cases eh)
  case Other_event
  then show ?thesis
    by (simp add: subrating_activity_listener_def ENOTSUP_def EINVAL_def)
next
  case (Activity_state_changed x)
  then show ?thesis
    by (simp add: subrating_activity_listener_def ENOTSUP_def EINVAL_def emit_def traffic_def)
qed

theorem unsupported_event_witness:
  "fst (subrating_activity_listener stack0 cfg0 (Activity_state_changed 7) init_controller) \<noteq> 0 \<and>
   current_tier (snd (subrating_activity_listener stack0 cfg0 (Activity_state_changed 7)
     init_controller)) = current_tier init_controller \<and>
   dormant_work (snd (subrating_activity_listener stack0 cfg0 (Activity_state_changed 7)
     init_controller)) = dormant_work init_controller \<and>
   subrating_activity_listener stack0 cfg0 (Activity_state_changed 7) init_controller =
     (- EINVAL, emit (Log_wrn_unhandled 7) init_controller)"
proof -
  note t = unsupported_event [of stack0 cfg0 "Activity_state_changed 7" init_controller 7]
  have v: "(7::int) \<noteq> ZMK_ACTIVITY_ACTIVE" "(7::int) \<noteq> ZMK_ACTIVITY_IDLE"
      "(7::int) \<noteq> ZMK_ACTIVITY_SLEEP"
    by (simp_all add: ZMK_ACTIVITY_ACTIVE_def ZMK_ACTIVITY_IDLE_def ZMK_ACTIVITY_SLEEP_def)
  have nz: "fst (subrating_activity_listener stack0 cfg0 (Activity_state_changed 7)
      init_controller) \<noteq> 0"
    using t [THEN conjunct1] v by simp
  show ?thesis
    using t nz v by blast
qed

subsection \<open>Time: the dormant work over a run\<close>

lemma elapse_unarmed: "dormant_work s = None \<Longrightarrow> elapse st cfg d s = s"
  by (simp add: elapse_def)

lemma elapse_before:
  "dormant_work s = Some r \<Longrightarrow> d < r \<Longrightarrow> elapse st cfg d s = s\<lparr>dormant_work := Some (r - d)\<rparr>"
  by (simp add: elapse_def)

lemma elapse_fire:
  "dormant_work s = Some r \<Longrightarrow> r \<le> d \<Longrightarrow>
     elapse st cfg d s = set_tier st cfg TIER_DORMANT (s\<lparr>dormant_work := None\<rparr>)"
  by (simp add: elapse_def dormant_timer_handler_def)

lemma run_append: "run cfg (xs @ ys) s = run cfg ys (run cfg xs s)"
  by (induction xs arbitrary: s) simp_all

lemma run_states_append:
  "run_states cfg (xs @ ys) s = run_states cfg xs s @ run_states cfg ys (run cfg xs s)"
  by (induction xs arbitrary: s) simp_all

lemma total_time_Cons: "total_time (i # ins) = duration i + total_time ins"
  by (simp add: total_time_def)

lemma total_time_Nil: "total_time [] = 0"
  by (simp add: total_time_def)

lemma waits_unarmed:
  "list_all is_wait ws \<Longrightarrow> dormant_work s = None \<Longrightarrow>
     run cfg ws s = s \<and> list_all (\<lambda>s'. s' = s) (run_states cfg ws s)"
proof (induction ws)
  case Nil
  then show ?case by simp
next
  case (Cons i ws)
  obtain st x where i: "i = (st, x)" by (cases i)
  from Cons.prems(1) i obtain d where x: "x = Elapse d"
    by (cases x) simp_all
  have "step cfg i s = s"
    using Cons.prems(2) by (simp add: i x elapse_unarmed)
  then show ?case
    using Cons by simp
qed

lemma waits_short:
  "list_all is_wait ws \<Longrightarrow> dormant_work s = Some r \<Longrightarrow> total_time ws < r \<Longrightarrow>
     run cfg ws s = s\<lparr>dormant_work := Some (r - total_time ws)\<rparr> \<and>
     list_all (\<lambda>s'. current_tier s' = current_tier s \<and> trace s' = trace s)
       (run_states cfg ws s)"
proof (induction ws arbitrary: s r)
  case Nil
  then show ?case by (simp add: total_time_Nil)
next
  case (Cons i ws)
  obtain st x where i: "i = (st, x)" by (cases i)
  from Cons.prems(1) i obtain d where x: "x = Elapse d"
    by (cases x) simp_all
  from Cons.prems(3) have d: "d < r" and rest: "total_time ws < r - d"
    by (simp_all add: i x total_time_Cons)
  have st1: "elapse st cfg d s = s\<lparr>dormant_work := Some (r - d)\<rparr>"
    using Cons.prems(2) d by (simp add: elapse_before)
  have ws: "list_all is_wait ws"
    using Cons.prems(1) by simp
  have armed: "dormant_work (s\<lparr>dormant_work := Some (r - d)\<rparr>) = Some (r - d)"
    by simp
  note ih = Cons.IH [OF ws armed rest]
  show ?case
    using ih by (simp add: st1 i x total_time_Cons)
qed

lemma waits_long:
  "list_all is_wait ws \<Longrightarrow> ws \<noteq> [] \<Longrightarrow> dormant_work s = Some r \<Longrightarrow> r \<le> total_time ws \<Longrightarrow>
     current_tier s \<noteq> TIER_DORMANT \<Longrightarrow>
     current_tier (run cfg ws s) = TIER_DORMANT \<and> dormant_work (run cfg ws s) = None \<and>
     broadcasts (trace (run cfg ws s)) = broadcasts (trace s) + 1"
proof (induction ws arbitrary: s r)
  case Nil
  then show ?case by simp
next
  case (Cons i ws)
  obtain st x where i: "i = (st, x)" by (cases i)
  from Cons.prems(1) i obtain d where x: "x = Elapse d"
    by (cases x) simp_all
  have ws: "list_all is_wait ws"
    using Cons.prems(1) by simp
  show ?case
  proof (cases "r \<le> d")
    case True
    let ?s1 = "set_tier st cfg TIER_DORMANT (s\<lparr>dormant_work := None\<rparr>)"
    have st1: "elapse st cfg d s = ?s1"
      using Cons.prems(3) True by (simp add: elapse_fire)
    have un: "dormant_work ?s1 = None"
      by (simp add: dormant_work_set_tier)
    have stay: "run cfg ws ?s1 = ?s1"
      using waits_unarmed [OF ws un] by simp
    have b: "broadcasts (trace ?s1) = broadcasts (trace s) + 1"
      using Cons.prems(5)
      by (simp add: trace_set_tier broadcasts_append broadcasts_tier_effects)
    show ?thesis
      using b by (simp add: i x st1 stay current_tier_set_tier un)
  next
    case False
    then have d: "d < r" by simp
    have st1: "elapse st cfg d s = s\<lparr>dormant_work := Some (r - d)\<rparr>"
      using Cons.prems(3) d by (simp add: elapse_before)
    have rest: "r - d \<le> total_time ws"
      using Cons.prems(4) by (simp add: i x total_time_Cons)
    have ne: "ws \<noteq> []"
      using rest d by (auto simp: total_time_Nil)
    have armed: "dormant_work (s\<lparr>dormant_work := Some (r - d)\<rparr>) = Some (r - d)"
      by simp
    have tier: "current_tier (s\<lparr>dormant_work := Some (r - d)\<rparr>) \<noteq> TIER_DORMANT"
      using Cons.prems(5) by simp
    note ih = Cons.IH [OF ws ne armed rest tier]
    show ?thesis
      using ih by (simp add: i x st1)
  qed
qed

lemma idle_family:
  "v = ZMK_ACTIVITY_IDLE \<or> v = ZMK_ACTIVITY_SLEEP \<Longrightarrow>
     subrating_activity_listener st cfg (Activity_state_changed v) s = (0, subrate_idle st cfg s)"
  using listener_idle listener_sleep by blast

lemma dormant_work_subrate_active: "dormant_work (subrate_active st cfg s) = None"
  by (simp add: subrate_active_def dormant_work_set_tier dormant_work_cancel)

lemma current_tier_subrate_active: "current_tier (subrate_active st cfg s) = TIER_ACTIVE"
  by (simp add: subrate_active_def current_tier_set_tier)

text \<open>
  Claim C5. Take any controller state, an IDLE (or SLEEP) event, then waiting periods
  that add up to less than the dormant delay, then an ACTIVE event, then any further
  waiting. After none of these inputs is the tier DORMANT, and at the end the tier is
  ACTIVE with the dormant work not armed: the ACTIVE event has cancelled it.
\<close>

theorem idle_debounce:
  assumes v: "v = ZMK_ACTIVITY_IDLE \<or> v = ZMK_ACTIVITY_SLEEP"
    and ws: "list_all is_wait ws"
    and short: "total_time ws < SUBRATE_DORMANT_DELAY_MS cfg"
    and ws': "list_all is_wait ws'"
  shows "list_all (\<lambda>s'. current_tier s' \<noteq> TIER_DORMANT)
      (run_states cfg ((st1, Event (Activity_state_changed v)) # ws @
         (st2, Event (Activity_state_changed ZMK_ACTIVITY_ACTIVE)) # ws') s) \<and>
    current_tier (run cfg ((st1, Event (Activity_state_changed v)) # ws @
         (st2, Event (Activity_state_changed ZMK_ACTIVITY_ACTIVE)) # ws') s) = TIER_ACTIVE \<and>
    dormant_work (run cfg ((st1, Event (Activity_state_changed v)) # ws @
         (st2, Event (Activity_state_changed ZMK_ACTIVITY_ACTIVE)) # ws') s) = None"
proof -
  let ?s1 = "subrate_idle st1 cfg s"
  let ?s2 = "run cfg ws ?s1"
  let ?s3 = "subrate_active st2 cfg ?s2"
  have e1: "snd (subrating_activity_listener st1 cfg (Activity_state_changed v) s) = ?s1"
    using v by (simp add: idle_family)
  have e3: "snd (subrating_activity_listener st2 cfg
      (Activity_state_changed ZMK_ACTIVITY_ACTIVE) ?s2) = ?s3"
    by (simp add: listener_active)
  have t1: "current_tier ?s1 = TIER_IDLE"
    by (rule current_tier_subrate_idle)
  have a1: "dormant_work ?s1 = Some (SUBRATE_DORMANT_DELAY_MS cfg)"
    by (rule dormant_work_subrate_idle)
  note w = waits_short [OF ws a1 short, where cfg = cfg]
  have mid: "list_all (\<lambda>s'. current_tier s' \<noteq> TIER_DORMANT) (run_states cfg ws ?s1)"
    using w t1 by (auto simp: list_all_iff)
  have t3: "current_tier ?s3 = TIER_ACTIVE"
    by (rule current_tier_subrate_active)
  have a3: "dormant_work ?s3 = None"
    by (rule dormant_work_subrate_active)
  note w' = waits_unarmed [OF ws' a3, where cfg = cfg]
  have stay: "run cfg ws' ?s3 = ?s3"
    using w' by simp
  have tail: "list_all (\<lambda>s'. current_tier s' \<noteq> TIER_DORMANT) (run_states cfg ws' ?s3)"
    using w' t3 by (auto simp: list_all_iff)
  show ?thesis
    using mid tail t1 t3 a3
    by (simp add: e1 e3 run_append run_states_append stay)
qed

theorem idle_debounce_witness:
  "list_all is_wait [(stack0, Elapse 10000), (stack_ok, Elapse 19999)] \<and>
   total_time [(stack0, Elapse 10000), (stack_ok, Elapse 19999)] < SUBRATE_DORMANT_DELAY_MS cfg0 \<and>
   list_all is_wait [(stack0, Elapse 60000)] \<and>
   list_all (\<lambda>s'. current_tier s' \<noteq> TIER_DORMANT)
     (run_states cfg0 ((stack0, Event (Activity_state_changed ZMK_ACTIVITY_IDLE)) #
        [(stack0, Elapse 10000), (stack_ok, Elapse 19999)] @
        (stack_ok, Event (Activity_state_changed ZMK_ACTIVITY_ACTIVE)) #
        [(stack0, Elapse 60000)]) init_controller) \<and>
   current_tier (run cfg0 ((stack0, Event (Activity_state_changed ZMK_ACTIVITY_IDLE)) #
        [(stack0, Elapse 10000), (stack_ok, Elapse 19999)] @
        (stack_ok, Event (Activity_state_changed ZMK_ACTIVITY_ACTIVE)) #
        [(stack0, Elapse 60000)]) init_controller) = TIER_ACTIVE"
proof -
  have v: "ZMK_ACTIVITY_IDLE = ZMK_ACTIVITY_IDLE \<or> ZMK_ACTIVITY_IDLE = ZMK_ACTIVITY_SLEEP"
    by simp
  have h1: "list_all is_wait [(stack0, Elapse 10000), (stack_ok, Elapse 19999)]"
    by simp
  have h2: "total_time [(stack0, Elapse 10000), (stack_ok, Elapse 19999)]
      < SUBRATE_DORMANT_DELAY_MS cfg0"
    by (simp add: total_time_def cfg0_def)
  have h3: "list_all is_wait [(stack0, Elapse 60000)]"
    by simp
  note t = idle_debounce [OF v h1 h2 h3, of stack0 stack_ok init_controller]
  show ?thesis
    using h1 h2 h3 t by (intro conjI) blast+
qed

text \<open>
  Claim C6. Take any controller state, an IDLE (or SLEEP) event, then waiting periods
  with no event that add up to at least the dormant delay. The dormant work expires on
  the way: its handler, which is \<^verbatim>\<open>set_tier(TIER_DORMANT)\<close>, runs, the tier at the end is
  DORMANT, the work is no longer armed, and exactly one broadcast was made since the
  event.
\<close>

theorem dormant_escalation:
  assumes v: "v = ZMK_ACTIVITY_IDLE \<or> v = ZMK_ACTIVITY_SLEEP"
    and ws: "list_all is_wait ws"
    and ne: "ws \<noteq> []"
    and long: "SUBRATE_DORMANT_DELAY_MS cfg \<le> total_time ws"
  shows "current_tier (run cfg ((st, Event (Activity_state_changed v)) # ws) s) = TIER_DORMANT \<and>
    dormant_work (run cfg ((st, Event (Activity_state_changed v)) # ws) s) = None \<and>
    broadcasts (trace (run cfg ((st, Event (Activity_state_changed v)) # ws) s)) =
      broadcasts (trace (run cfg [(st, Event (Activity_state_changed v))] s)) + 1 \<and>
    dormant_timer_handler st' cfg s' = set_tier st' cfg TIER_DORMANT s'"
proof -
  let ?s1 = "subrate_idle st cfg s"
  have e1: "snd (subrating_activity_listener st cfg (Activity_state_changed v) s) = ?s1"
    using v by (simp add: idle_family)
  have t1: "current_tier ?s1 \<noteq> TIER_DORMANT"
    by (simp add: current_tier_subrate_idle)
  have a1: "dormant_work ?s1 = Some (SUBRATE_DORMANT_DELAY_MS cfg)"
    by (rule dormant_work_subrate_idle)
  note w = waits_long [OF ws ne a1 long t1, where cfg = cfg]
  show ?thesis
    using w by (simp add: e1 dormant_timer_handler_def)
qed

theorem dormant_escalation_witness:
  "list_all is_wait [(stack0, Elapse 12000), (stack_ok, Elapse 18000)] \<and>
   [(stack0, Elapse 12000), (stack_ok, Elapse 18000)] \<noteq> [] \<and>
   SUBRATE_DORMANT_DELAY_MS cfg0 \<le> total_time [(stack0, Elapse 12000), (stack_ok, Elapse 18000)] \<and>
   current_tier (run cfg0 ((stack0, Event (Activity_state_changed ZMK_ACTIVITY_IDLE)) #
     [(stack0, Elapse 12000), (stack_ok, Elapse 18000)]) init_controller) = TIER_DORMANT \<and>
   dormant_work (run cfg0 ((stack0, Event (Activity_state_changed ZMK_ACTIVITY_IDLE)) #
     [(stack0, Elapse 12000), (stack_ok, Elapse 18000)]) init_controller) = None"
proof -
  have v: "ZMK_ACTIVITY_IDLE = ZMK_ACTIVITY_IDLE \<or> ZMK_ACTIVITY_IDLE = ZMK_ACTIVITY_SLEEP"
    by simp
  have h1: "list_all is_wait [(stack0, Elapse 12000), (stack_ok, Elapse 18000)]"
    by simp
  have h2: "[(stack0, Elapse 12000), (stack_ok, Elapse 18000)] \<noteq> []"
    by simp
  have h3: "SUBRATE_DORMANT_DELAY_MS cfg0
      \<le> total_time [(stack0, Elapse 12000), (stack_ok, Elapse 18000)]"
    by (simp add: total_time_def cfg0_def)
  note t = dormant_escalation [OF v h1 h2 h3, of stack0 init_controller]
  show ?thesis
    using h1 h2 h3 t by (intro conjI) blast+
qed

text \<open>
  Claim C10. With the tier already IDLE, an IDLE or SLEEP event makes no call into the
  stack: its only effects are the cancel and the schedule call. Whatever the remaining
  delay of the dormant work was, it is afterwards armed with the full dormant delay, and
  the tier stays IDLE through any waiting shorter than that delay: the countdown starts
  again.
\<close>

theorem repeated_idle_rearms:
  assumes idle: "current_tier s = TIER_IDLE"
    and v: "v = ZMK_ACTIVITY_IDLE \<or> v = ZMK_ACTIVITY_SLEEP"
    and ws: "list_all is_wait ws"
    and short: "total_time ws < SUBRATE_DORMANT_DELAY_MS cfg"
  shows "fst (subrating_activity_listener st cfg (Activity_state_changed v) s) = 0 \<and>
    trace (snd (subrating_activity_listener st cfg (Activity_state_changed v) s)) =
      trace s @ [Work_cancel, Work_schedule (SUBRATE_DORMANT_DELAY_MS cfg)] \<and>
    traffic (trace (snd (subrating_activity_listener st cfg (Activity_state_changed v) s))) =
      traffic (trace s) \<and>
    current_tier (snd (subrating_activity_listener st cfg (Activity_state_changed v) s)) =
      TIER_IDLE \<and>
    dormant_work (snd (subrating_activity_listener st cfg (Activity_state_changed v) s)) =
      Some (SUBRATE_DORMANT_DELAY_MS cfg) \<and>
    list_all (\<lambda>s'. current_tier s' = TIER_IDLE)
      (run_states cfg ws (snd (subrating_activity_listener st cfg (Activity_state_changed v) s)))"
proof -
  let ?s1 = "subrate_idle st cfg s"
  have l: "subrating_activity_listener st cfg (Activity_state_changed v) s = (0, ?s1)"
    using v by (rule idle_family)
  have tr: "trace ?s1 = trace s @ [Work_cancel, Work_schedule (SUBRATE_DORMANT_DELAY_MS cfg)]"
    using idle by (simp add: trace_subrate_idle)
  have tf: "traffic (trace ?s1) = traffic (trace s)"
    by (simp add: tr traffic_def)
  have t1: "current_tier ?s1 = TIER_IDLE"
    by (rule current_tier_subrate_idle)
  have a1: "dormant_work ?s1 = Some (SUBRATE_DORMANT_DELAY_MS cfg)"
    by (rule dormant_work_subrate_idle)
  note w = waits_short [OF ws a1 short, where cfg = cfg]
  have stay: "list_all (\<lambda>s'. current_tier s' = TIER_IDLE) (run_states cfg ws ?s1)"
    using w t1 by (auto simp: list_all_iff)
  show ?thesis
    using tr tf t1 a1 stay by (simp add: l)
qed

theorem repeated_idle_rearms_witness:
  "current_tier \<lparr>current_tier = TIER_IDLE, dormant_work = Some 1, trace = []\<rparr> = TIER_IDLE \<and>
   list_all is_wait [(stack0, Elapse 29999)] \<and>
   total_time [(stack0, Elapse 29999)] < SUBRATE_DORMANT_DELAY_MS cfg0 \<and>
   current_tier (elapse stack0 cfg0 29999
     \<lparr>current_tier = TIER_IDLE, dormant_work = Some 1, trace = []\<rparr>) = TIER_DORMANT \<and>
   trace (snd (subrating_activity_listener stack0 cfg0 (Activity_state_changed ZMK_ACTIVITY_SLEEP)
     \<lparr>current_tier = TIER_IDLE, dormant_work = Some 1, trace = []\<rparr>)) =
     [] @ [Work_cancel, Work_schedule (SUBRATE_DORMANT_DELAY_MS cfg0)] \<and>
   list_all (\<lambda>s'. current_tier s' = TIER_IDLE)
     (run_states cfg0 [(stack0, Elapse 29999)]
       (snd (subrating_activity_listener stack0 cfg0 (Activity_state_changed ZMK_ACTIVITY_SLEEP)
         \<lparr>current_tier = TIER_IDLE, dormant_work = Some 1, trace = []\<rparr>)))"
proof -
  let ?s = "\<lparr>current_tier = TIER_IDLE, dormant_work = Some 1, trace = []\<rparr>"
  have v: "ZMK_ACTIVITY_SLEEP = ZMK_ACTIVITY_IDLE \<or> ZMK_ACTIVITY_SLEEP = ZMK_ACTIVITY_SLEEP"
    by simp
  have h0: "current_tier ?s = TIER_IDLE"
    by simp
  have h1: "list_all is_wait [(stack0, Elapse 29999)]"
    by simp
  have h2: "total_time [(stack0, Elapse 29999)] < SUBRATE_DORMANT_DELAY_MS cfg0"
    by (simp add: total_time_def cfg0_def)
  have fire: "current_tier (elapse stack0 cfg0 29999 ?s) = TIER_DORMANT"
    by (simp add: elapse_def dormant_timer_handler_def current_tier_set_tier)
  note t = repeated_idle_rearms [OF h0 v h1 h2, of stack0]
  have tr: "trace (snd (subrating_activity_listener stack0 cfg0
      (Activity_state_changed ZMK_ACTIVITY_SLEEP) ?s)) =
      [] @ [Work_cancel, Work_schedule (SUBRATE_DORMANT_DELAY_MS cfg0)]"
    using t by simp
  show ?thesis
    using h0 h1 h2 fire tr t by (intro conjI) blast+
qed

subsection \<open>Initialisation\<close>

text \<open>
  \<^verbatim>\<open>zmk_sdc_subrating_init\<close> hands the stack's return code to its caller; it installs the
  IDLE defaults and changes neither the tier nor the dormant work.
\<close>

lemma init_returns_stack_code:
  "fst (zmk_sdc_subrating_init st cfg s) = set_defaults_rc st (idle_params cfg) \<and>
   current_tier (snd (zmk_sdc_subrating_init st cfg s)) = current_tier s \<and>
   dormant_work (snd (zmk_sdc_subrating_init st cfg s)) = dormant_work s \<and>
   traffic (trace (snd (zmk_sdc_subrating_init st cfg s))) =
     traffic (trace s) @ [Set_defaults (idle_params cfg)]"
  by (simp add: zmk_sdc_subrating_init_def bt_conn_le_subrate_set_defaults_def emit_def
      traffic_def)

end
